theory Spec2Isabelle
  imports Complex_Main "HOL-Library.Word" "HOL-Library.Monad_Syntax"
begin

unbundle bit_operations_syntax

section \<open>PCM decoder\<close>

text \<open>
  \<^verbatim>\<open>App.tsx\<close> imports \<^verbatim>\<open>decode\<close> and \<^verbatim>\<open>decodeAudioData\<close> from
  \<^verbatim>\<open>./utils/audio\<close>; that module is not among the source files. The decoder is
  therefore modelled from the specification (section 4.1). Dividing a 16-bit integer
  by 32768 is exact in IEEE-754 single and double precision, so samples are modelled
  as real numbers without rounding.
\<close>

type_synonym byte = "8 word"

text \<open>Modelled from the spec: the missing \<^verbatim>\<open>utils/audio\<close> decoder reads "the byte
  sequence two bytes at a time as little-endian signed 16-bit integers"; the first
  byte of a pair is the low byte.\<close>

definition int16le :: "byte \<Rightarrow> byte \<Rightarrow> 16 word" where
  "int16le lo hi = push_bit 8 (ucast hi) OR ucast lo"

text \<open>Modelled from the spec: the missing \<^verbatim>\<open>utils/audio\<close> decoder "scales each
  [sample] to floating point by dividing by 32768.0"; the 16-bit value is read as
  signed.\<close>

definition scaleSample :: "16 word \<Rightarrow> real" where
  "scaleSample w = real_of_int (sint w) / 32768"

text \<open>Modelled from the spec: the samples of the missing \<^verbatim>\<open>utils/audio\<close> decoder,
  taken two bytes at a time; a byte without a partner yields no sample.\<close>

fun readSamples :: "byte list \<Rightarrow> real list" where
  "readSamples (lo # hi # bs) = scaleSample (int16le lo hi) # readSamples bs"
| "readSamples bs = []"

text \<open>Modelled from the spec: the frames of the missing \<^verbatim>\<open>utils/audio\<close> decoder,
  "one sample per channel in round-robin order across channelCount": each frame
  consumes \<open>2 * c\<close> bytes, and what remains when fewer than \<open>2 * c\<close> bytes are left
  (the trailing incomplete frame) is discarded. The spec defines nothing for a
  channel count of 0; the model then yields no frame.\<close>

function readFrames :: "nat \<Rightarrow> byte list \<Rightarrow> real list list" where
  "readFrames c raw =
     (if c = 0 \<or> length raw < 2 * c then []
      else readSamples (take (2 * c) raw) # readFrames c (drop (2 * c) raw))"
  by pat_completeness auto
termination
  by (relation "measure (\<lambda>(c, raw). length raw)") auto

declare readFrames.simps [simp del]

text \<open>Modelled from the spec: the NormalizedAudioBuffer of the missing
  \<^verbatim>\<open>utils/audio\<close> module, an "ordered sequence of floating-point samples" with
  "sample rate and channel count attached as metadata". Frame \<open>i\<close> holds the samples
  of all channels at time instant \<open>i\<close>.\<close>

record audio_buffer =
  sampleRate :: nat
  numberOfChannels :: nat
  frames :: "real list list"

text \<open>Modelled from the spec: \<^verbatim>\<open>pcmToAudioBuffer(raw, sampleRate, channelCount)\<close>,
  the function \<^verbatim>\<open>decodeAudioData\<close> of the missing \<^verbatim>\<open>utils/audio\<close> module. It is
  total: frame misalignment is handled by truncation and no error is raised.\<close>

definition pcmToAudioBuffer :: "byte list \<Rightarrow> nat \<Rightarrow> nat \<Rightarrow> audio_buffer" where
  "pcmToAudioBuffer raw rate c =
     \<lparr>sampleRate = rate, numberOfChannels = c, frames = readFrames c raw\<rparr>"

section \<open>Generative-AI service\<close>

text \<open>
  The two service functions (\<^verbatim>\<open>summarizeNewsWithGoogleSearch\<close> and \<^verbatim>\<open>generateSpeech\<close>)
  read the response of the remote call through optional chaining. The response types
  belong to the external SDK; they are modelled with the fields the code reads, each
  optional field as an \<open>option\<close>. \<open>WebRef\<close> and \<open>GroundingChunk\<close> are the types of
  \<^verbatim>\<open>types.ts\<close>.\<close>

record WebRef =
  uri :: string
  title :: string

record GroundingChunk =
  web :: "WebRef option"

record Blob =
  blob_data :: "string option"

record Part =
  part_inlineData :: "Blob option"

record Content =
  content_parts :: "Part list option"

record GroundingMetadata =
  gm_groundingChunks :: "GroundingChunk list option"

record Candidate =
  cand_content :: "Content option"
  cand_groundingMetadata :: "GroundingMetadata option"

record GenerateContentResponse =
  resp_text :: "string option"
  resp_candidates :: "Candidate list option"

text \<open>The optional element access \<^verbatim>\<open>xs?.[0]\<close>: the first element, undefined for an
  empty array.\<close>

definition first0 :: "'a list \<Rightarrow> 'a option" where
  "first0 xs = (case xs of [] \<Rightarrow> None | x # _ \<Rightarrow> Some x)"

text \<open>The object returned by \<^verbatim>\<open>summarizeNewsWithGoogleSearch\<close>. The summary is
  \<^verbatim>\<open>response.text\<close>, which may be undefined.\<close>

record SummaryResult =
  summary :: "string option"
  groundingChunks :: "GroundingChunk list"

text \<open>
  \<^verbatim>\<open>summarizeNewsWithGoogleSearch\<close>, applied to the outcome of the awaited remote call:
  \<open>Inl\<close> is a rejected call, \<open>Inr\<close> a response. The result is \<open>Inl\<close> for the error thrown
  by the catch block and \<open>Inr\<close> for the returned object. The citations are
  \<^verbatim>\<open>response.candidates?.[0]?.groundingMetadata?.groundingChunks || []\<close>; an array is
  never falsy, so the default applies exactly when the chain is undefined.\<close>

definition summarizeNewsWithGoogleSearch ::
  "string + GenerateContentResponse \<Rightarrow> string + SummaryResult" where
  "summarizeNewsWithGoogleSearch api =
     (case api of
        Inl e \<Rightarrow> Inl ''Failed to summarize news.''
      | Inr response \<Rightarrow>
          Inr \<lparr>summary = resp_text response,
               groundingChunks =
                 (case resp_candidates response \<bind> first0 \<bind> cand_groundingMetadata
                         \<bind> gm_groundingChunks of
                    None \<Rightarrow> []
                  | Some cs \<Rightarrow> cs)\<rparr>)"

text \<open>
  \<^verbatim>\<open>generateSpeech\<close>, applied to the outcome of the awaited remote call. A missing or
  empty payload (\<^verbatim>\<open>!base64Audio\<close>) throws inside the try block; every failure leaves
  the function as the error "Failed to generate speech.".\<close>

definition generateSpeech :: "string + GenerateContentResponse \<Rightarrow> string + string" where
  "generateSpeech api =
     (case api of
        Inl e \<Rightarrow> Inl ''Failed to generate speech.''
      | Inr response \<Rightarrow>
          (case resp_candidates response \<bind> first0 \<bind> cand_content \<bind> content_parts
                  \<bind> first0 \<bind> part_inlineData \<bind> blob_data of
             None \<Rightarrow> Inl ''Failed to generate speech.''
           | Some base64Audio \<Rightarrow>
               if base64Audio = [] then Inl ''Failed to generate speech.''
               else Inr base64Audio))"

section \<open>Favorites store\<close>

text \<open>The \<^verbatim>\<open>FavoriteItem\<close> of \<^verbatim>\<open>types.ts\<close>; the timestamp is an integer number of
  milliseconds.\<close>

record FavoriteItem =
  fav_id :: string
  fav_text :: string
  fav_source :: string
  fav_timestamp :: int

text \<open>
  \<^verbatim>\<open>handleAddFavorite\<close>: the state update passed to \<^verbatim>\<open>setFavorites\<close>. The first
  argument is the clock reading \<^verbatim>\<open>new Date().toISOString()\<close> that becomes the id.\<close>

definition handleAddFavorite ::
  "string \<Rightarrow> string \<Rightarrow> string \<Rightarrow> int \<Rightarrow> FavoriteItem list \<Rightarrow> FavoriteItem list" where
  "handleAddFavorite now tx src ts prev =
     (if list_ex (\<lambda>item. fav_text item = tx) prev
      then filter (\<lambda>item. fav_text item \<noteq> tx) prev
      else \<lparr>fav_id = now, fav_text = tx, fav_source = src, fav_timestamp = ts\<rparr> # prev)"

text \<open>\<^verbatim>\<open>handleRemoveFavorite\<close>: removal by id.\<close>

definition handleRemoveFavorite :: "string \<Rightarrow> FavoriteItem list \<Rightarrow> FavoriteItem list" where
  "handleRemoveFavorite i prev = filter (\<lambda>item. fav_id item \<noteq> i) prev"

text \<open>
  Each render evaluates \<^verbatim>\<open>favorites.sort((a,b) => b.timestamp - a.timestamp)\<close>, which
  sorts the state array in place, stably and by descending timestamp.\<close>

definition sortedFavorites :: "FavoriteItem list \<Rightarrow> FavoriteItem list" where
  "sortedFavorites favorites = sort_key (\<lambda>item. - fav_timestamp item) favorites"

text \<open>The operations on the store, and their execution in sequence.\<close>

datatype fav_op =
    AddFavorite string string string int
  | RemoveFavorite string
  | Render

fun applyFavOp :: "fav_op \<Rightarrow> FavoriteItem list \<Rightarrow> FavoriteItem list" where
  "applyFavOp (AddFavorite now tx src ts) favorites = handleAddFavorite now tx src ts favorites"
| "applyFavOp (RemoveFavorite i) favorites = handleRemoveFavorite i favorites"
| "applyFavOp Render favorites = sortedFavorites favorites"

fun runFavOps :: "fav_op list \<Rightarrow> FavoriteItem list \<Rightarrow> FavoriteItem list" where
  "runFavOps [] favorites = favorites"
| "runFavOps (x # xs) favorites = runFavOps xs (applyFavOp x favorites)"

section \<open>Playback controller\<close>

text \<open>
  The controller is the component state of \<^verbatim>\<open>ResultCard\<close> and its handler
  \<^verbatim>\<open>handleAudioAction\<close>. The handler is an async function: it is modelled by its
  synchronous prefix and by the continuations that run when an awaited promise
  settles. A \<open>session\<close> describes the handler as it runs on a committed render: the
  state variables it reads are the current ones. The values of the last committed
  render are kept apart from the current state in \<open>result_card\<close> below. The phase of
  the specification is derived from the two flags, with the priority the button
  label uses.\<close>

datatype phase = Idle | Generating | Playing

text \<open>
  The suspended invocation of \<^verbatim>\<open>handleAudioAction\<close>, if any: waiting for
  \<^verbatim>\<open>generateSpeech\<close>, or waiting for \<^verbatim>\<open>audioContext.resume()\<close> with the payload
  already received. The calls that follow (\<^verbatim>\<open>decode\<close>, \<^verbatim>\<open>decodeAudioData\<close> and the
  creation of the source node) are taken as one step with the continuation before
  them. A session holds one suspended invocation, as is the case when every click
  is handled on a committed render, where the button is disabled while an invocation
  is in flight; a \<open>result_card\<close> below holds any number of them.\<close>

datatype task = NoTask | AwaitSpeech | AwaitResume string

text \<open>
  The state of one result card: the three \<^verbatim>\<open>useState\<close> variables, the two refs
  (whether an AudioContext has been created; the current source node, by its
  identity), the suspended invocation, the identity of the next node that
  \<^verbatim>\<open>createBufferSource\<close> returns, and the state of the audio device: the source
  nodes that are rendering (\<open>started\<close>), and those that have stopped or finished and
  whose \<^verbatim>\<open>ended\<close> event has not been dispatched yet (\<open>ending\<close>).\<close>

record session =
  isGeneratingAudio :: bool
  isPlaying :: bool
  audioError :: "string option"
  audioContextRef :: bool
  sourceNodeRef :: "nat option"
  pending :: task
  nextNode :: nat
  started :: "nat set"
  ending :: "nat set"

definition initial :: session where
  "initial = \<lparr>isGeneratingAudio = False, isPlaying = False, audioError = None,
              audioContextRef = False, sourceNodeRef = None, pending = NoTask,
              nextNode = 0, started = {}, ending = {}\<rparr>"

definition phase :: "session \<Rightarrow> phase" where
  "phase s = (if isGeneratingAudio s then Generating else if isPlaying s then Playing else Idle)"

text \<open>The output devices (buffer source nodes) that are allocated.\<close>

definition devices :: "session \<Rightarrow> nat set" where
  "devices s = started s \<union> ending s"

text \<open>The message of line 128, as its UTF-8 bytes.\<close>

definition audioErrorMessage :: string where
  "audioErrorMessage =
     ''Sesli brifing olu'' @ [CHR 0xC5, CHR 0x9F] @ ''turulamad'' @ [CHR 0xC4, CHR 0xB1] @ ''.''"

text \<open>
  The contract of the audio device: a rendering source node that is stopped or that
  reaches the end of its buffer stops rendering, and its \<^verbatim>\<open>ended\<close> event is queued.
  Stopping a node that is no longer rendering changes nothing.\<close>

definition halt :: "nat \<Rightarrow> session \<Rightarrow> session" where
  "halt n s =
     (if n \<in> started s then s\<lparr>started := started s - {n}, ending := insert n (ending s)\<rparr>
      else s)"

text \<open>Line 85, \<^verbatim>\<open>sourceNodeRef.current?.stop()\<close>: nothing happens when the ref is null.\<close>

definition stopSource :: "session \<Rightarrow> session" where
  "stopSource s = (case sourceNodeRef s of None \<Rightarrow> s | Some n \<Rightarrow> halt n s)"

text \<open>
  Lines 89 to 94, up to the first await: return when the summary is empty, else set
  the generating flag, clear the error and issue the \<^verbatim>\<open>generateSpeech\<close> request.\<close>

definition startRequest :: "string \<Rightarrow> session \<Rightarrow> session" where
  "startRequest summaryText s =
     (if summaryText = [] then s
      else s\<lparr>isGeneratingAudio := True, audioError := None, pending := AwaitSpeech\<rparr>)"

text \<open>\<^verbatim>\<open>handleAudioAction\<close>, lines 83 to 94: the stop path when \<^verbatim>\<open>isPlaying\<close>, else the
  start path.\<close>

definition handleAudioAction :: "string \<Rightarrow> session \<Rightarrow> session" where
  "handleAudioAction summaryText s =
     (if isPlaying s then stopSource s else startRequest summaryText s)"

text \<open>The catch block (lines 126 to 129) and the finally block (lines 130 to 132).\<close>

definition catchBlock :: "session \<Rightarrow> session" where
  "catchBlock s = s\<lparr>audioError := Some audioErrorMessage, isPlaying := False\<rparr>"

definition finallyBlock :: "session \<Rightarrow> session" where
  "finallyBlock s = s\<lparr>isGeneratingAudio := False, pending := NoTask\<rparr>"

text \<open>
  Lines 105 to 124. The decoder of the missing module \<^verbatim>\<open>utils/audio\<close> is a
  parameter: \<open>dec\<close> is \<^verbatim>\<open>decode\<close> followed by \<^verbatim>\<open>decodeAudioData\<close> at 24000 Hz, mono,
  and \<open>None\<close> when either throws. On success a new source node is created, stored in
  the ref and started.\<close>

definition playDecoded :: "(string \<Rightarrow> 'b option) \<Rightarrow> string \<Rightarrow> session \<Rightarrow> session" where
  "playDecoded dec base64Audio s =
     (case dec base64Audio of
        None \<Rightarrow> finallyBlock (catchBlock s)
      | Some audioBuffer \<Rightarrow>
          finallyBlock
            (s\<lparr>sourceNodeRef := Some (nextNode s), nextNode := Suc (nextNode s),
               started := insert (nextNode s) (started s), isPlaying := True\<rparr>))"

text \<open>
  Lines 94 to 103, when \<^verbatim>\<open>generateSpeech\<close> settles with \<open>r\<close>. \<open>ctorOk\<close> tells whether
  constructing an AudioContext succeeds (it is constructed only when the ref is null);
  \<open>suspended\<close> is the test \<^verbatim>\<open>audioContext.state === 'suspended'\<close>.\<close>

definition afterSpeech ::
  "(string \<Rightarrow> 'b option) \<Rightarrow> string + string \<Rightarrow> bool \<Rightarrow> bool \<Rightarrow> session \<Rightarrow> session" where
  "afterSpeech dec r ctorOk suspended s =
     (case r of
        Inl e \<Rightarrow> finallyBlock (catchBlock s)
      | Inr base64Audio \<Rightarrow>
          if \<not> audioContextRef s \<and> \<not> ctorOk then finallyBlock (catchBlock s)
          else if suspended
            then s\<lparr>audioContextRef := True, pending := AwaitResume base64Audio\<rparr>
            else playDecoded dec base64Audio (s\<lparr>audioContextRef := True\<rparr>))"

text \<open>The continuation when \<^verbatim>\<open>audioContext.resume()\<close> settles.\<close>

definition afterResume :: "(string \<Rightarrow> 'b option) \<Rightarrow> bool \<Rightarrow> string \<Rightarrow> session \<Rightarrow> session" where
  "afterResume dec resumed base64Audio s =
     (if resumed then playDecoded dec base64Audio s else finallyBlock (catchBlock s))"

text \<open>The \<^verbatim>\<open>onended\<close> handler, lines 118 to 121.\<close>

definition onended :: "session \<Rightarrow> session" where
  "onended s = s\<lparr>isPlaying := False, sourceNodeRef := None\<rparr>"

text \<open>The button on a committed render, lines 158 to 160:
  \<^verbatim>\<open>onClick={handleAudioAction}\<close> with \<^verbatim>\<open>disabled={isGeneratingAudio}\<close>.\<close>

definition click :: "string \<Rightarrow> session \<Rightarrow> session" where
  "click summaryText s = (if isGeneratingAudio s then s else handleAudioAction summaryText s)"

text \<open>
  What can happen to a session: a click on the button, the settling of the
  \<^verbatim>\<open>generateSpeech\<close> call (with the outcome of the remote call and the two
  observations of the AudioContext), the settling of \<^verbatim>\<open>resume()\<close>, a source node
  reaching the end of its buffer, and the dispatch of a queued \<^verbatim>\<open>ended\<close> event. An
  event that is not enabled leaves the session unchanged. Committing a render and
  unmounting are events of a \<open>result_card\<close> below.\<close>

datatype event =
    Click
  | SpeechSettled "string + GenerateContentResponse" bool bool
  | ResumeSettled bool
  | Finished nat
  | Ended nat

fun step :: "(string \<Rightarrow> 'b option) \<Rightarrow> string \<Rightarrow> event \<Rightarrow> session \<Rightarrow> session" where
  "step dec summaryText Click s = click summaryText s"
| "step dec summaryText (SpeechSettled api ctorOk suspended) s =
     (if pending s = AwaitSpeech then afterSpeech dec (generateSpeech api) ctorOk suspended s
      else s)"
| "step dec summaryText (ResumeSettled resumed) s =
     (case pending s of
        AwaitResume base64Audio \<Rightarrow> afterResume dec resumed base64Audio s
      | _ \<Rightarrow> s)"
| "step dec summaryText (Finished n) s = halt n s"
| "step dec summaryText (Ended n) s =
     (if n \<in> ending s then onended (s\<lparr>ending := ending s - {n}\<rparr>) else s)"

fun run :: "(string \<Rightarrow> 'b option) \<Rightarrow> string \<Rightarrow> event list \<Rightarrow> session \<Rightarrow> session" where
  "run dec summaryText [] s = s"
| "run dec summaryText (e # es) s = run dec summaryText es (step dec summaryText e s)"

text \<open>
  The invariant of the reachable sessions: the generating flag is set exactly while an
  invocation is suspended; without a current source node the session is not playing
  and no device exists; with a current source node the session is playing, is not
  generating, and that node is the only device.\<close>

definition consistent :: "session \<Rightarrow> bool" where
  "consistent s \<longleftrightarrow>
     isGeneratingAudio s = (pending s \<noteq> NoTask)
     \<and> (case sourceNodeRef s of
          None \<Rightarrow> \<not> isPlaying s \<and> started s = {} \<and> ending s = {}
        | Some n \<Rightarrow>
            isPlaying s \<and> \<not> isGeneratingAudio s
            \<and> (started s = {n} \<and> ending s = {} \<or> started s = {} \<and> ending s = {n}))"


text \<open>
  Concrete inputs for the examples: a decoder that accepts every payload and one that
  rejects every payload, a speech response that carries a payload, a summarization
  response without candidates, the session after a click, and the session after a
  click and a successful response.\<close>

definition decodesAll :: "string \<Rightarrow> unit option" where
  "decodesAll base64Audio = Some ()"

definition decodesNone :: "string \<Rightarrow> unit option" where
  "decodesNone base64Audio = None"

definition speechResponse :: "string \<Rightarrow> GenerateContentResponse" where
  "speechResponse base64Audio =
     \<lparr>resp_text = None,
      resp_candidates = Some [\<lparr>cand_content = Some \<lparr>content_parts =
        Some [\<lparr>part_inlineData = Some \<lparr>blob_data = Some base64Audio\<rparr>\<rparr>]\<rparr>,
        cand_groundingMetadata = None\<rparr>]\<rparr>"

definition noCitations :: GenerateContentResponse where
  "noCitations = \<lparr>resp_text = Some ''ozet'', resp_candidates = None\<rparr>"

definition generatingExample :: session where
  "generatingExample = run decodesNone ''x'' [Click] initial"

definition playingExample :: session where
  "playingExample =
     run decodesAll ''x'' [Click, SpeechSettled (Inr (speechResponse ''AAD/fw=='')) True False] initial"

section \<open>Rendering, overlapping invocations and unmounting\<close>















section \<open>Properties of the PCM decoder\<close>

lemma length_readFrames:
  "0 < c \<Longrightarrow> length (readFrames c raw) = length raw div (2 * c)"
proof (induction c raw rule: readFrames.induct)
  case (1 c raw)
  show ?case
  proof (cases "length raw < 2 * c")
    case True
    then show ?thesis by (simp add: readFrames.simps [of c raw])
  next
    case False
    with "1.prems" have ih:
      "length (readFrames c (drop (2 * c) raw)) = (length raw - 2 * c) div (2 * c)"
      using "1.IH" by simp
    from False have "length raw div (2 * c) = Suc ((length raw - 2 * c) div (2 * c))"
      using "1.prems" by (simp add: le_div_geq)
    with ih False "1.prems" show ?thesis
      by (simp add: readFrames.simps [of c raw])
  qed
qed

lemma readFrames_take:
  "0 < c \<Longrightarrow> readFrames c (take (2 * c * (length raw div (2 * c))) raw) = readFrames c raw"
proof (induction c raw rule: readFrames.induct)
  case (1 c raw)
  show ?case
  proof (cases "length raw < 2 * c")
    case True
    then show ?thesis
      by (simp add: readFrames.simps [of c raw] readFrames.simps [of c "[]"])
  next
    case False
    let ?k = "(length raw - 2 * c) div (2 * c)"
    have d: "length raw div (2 * c) = Suc ?k"
      using False "1.prems" by (simp add: le_div_geq)
    have ih: "readFrames c (take (2 * c * ?k) (drop (2 * c) raw))
                = readFrames c (drop (2 * c) raw)"
      using "1.IH" False "1.prems" by simp
    let ?t = "take (2 * c * Suc ?k) raw"
    have len: "\<not> length ?t < 2 * c" using False by simp
    have tk: "take (2 * c) ?t = take (2 * c) raw" by (simp add: min_def)
    have dr: "drop (2 * c) ?t = take (2 * c * ?k) (drop (2 * c) raw)"
      by (simp add: drop_take)
    have "readFrames c ?t = readSamples (take (2 * c) ?t) # readFrames c (drop (2 * c) ?t)"
      using len "1.prems" by (subst readFrames.simps) simp
    also have "\<dots> = readSamples (take (2 * c) raw) # readFrames c (drop (2 * c) raw)"
      by (simp only: tk dr ih)
    also have "\<dots> = readFrames c raw"
      using False "1.prems" by (simp add: readFrames.simps [of c raw])
    finally show ?thesis by (simp only: d)
  qed
qed

lemma aligned_plus_one:
  assumes c: "0 < c" and m: "length raw mod (2 * c) = 0"
  shows "(length raw + 1) div (2 * c) = length raw div (2 * c)"
proof -
  from m obtain k where k: "length raw = 2 * c * k" by (auto simp: mod_eq_0_iff_dvd)
  have nz: "2 * c \<noteq> 0" using c by simp
  have "(1 + 2 * c * k) div (2 * c) = k + 1 div (2 * c)"
    by (rule div_mult_self2 [OF nz])
  moreover have "(1::nat) div (2 * c) = 0" using c by simp
  ultimately have "(length raw + 1) div (2 * c) = k" by (simp add: k)
  moreover have "length raw div (2 * c) = k" using c by (simp add: k)
  ultimately show ?thesis by simp
qed

lemma length_readSamples: "length (readSamples bs) = length bs div 2"
  by (induction bs rule: readSamples.induct) auto

lemma frame_width: "fr \<in> set (readFrames c raw) \<Longrightarrow> length fr = c"
proof (induction c raw rule: readFrames.induct)
  case (1 c raw)
  then show ?case
    by (subst (asm) (2) readFrames.simps) (auto simp: length_readSamples split: if_splits)
qed

lemma scaleSample_bounds: "- 1 \<le> scaleSample w \<and> scaleSample w < 1"
proof -
  have "- 32768 \<le> sint w" using sint_ge [of w] by simp
  then have lo: "real_of_int (- 32768) \<le> real_of_int (sint w)"
    by (rule of_int_le_iff [THEN iffD2])
  have "sint w < 32768" using sint_lt [of w] by simp
  then have hi: "real_of_int (sint w) < real_of_int 32768"
    by (rule of_int_less_iff [THEN iffD2])
  from lo hi show ?thesis by (simp add: scaleSample_def)
qed

lemma readSamples_bounds: "x \<in> set (readSamples bs) \<Longrightarrow> - 1 \<le> x \<and> x \<le> 1"
proof (induction bs rule: readSamples.induct)
  case (1 lo hi bs)
  then show ?case using scaleSample_bounds [of "int16le lo hi"] by auto
qed simp_all

lemma readFrames_bounds:
  "fr \<in> set (readFrames c raw) \<Longrightarrow> x \<in> set fr \<Longrightarrow> - 1 \<le> x \<and> x \<le> 1"
proof (induction c raw rule: readFrames.induct)
  case (1 c raw)
  from "1.prems"(1) have go: "\<not> (c = 0 \<or> length raw < 2 * c)"
    by (subst (asm) readFrames.simps) (auto split: if_splits)
  with "1.prems"(1) have
    "fr = readSamples (take (2 * c) raw) \<or> fr \<in> set (readFrames c (drop (2 * c) raw))"
    by (subst (asm) readFrames.simps) (auto split: if_splits)
  then show ?case
    using "1.IH" "1.prems"(2) go readSamples_bounds by blast
qed

lemma readSamples_nth:
  "j < length bs div 2 \<Longrightarrow>
     readSamples bs ! j = scaleSample (int16le (bs ! (2 * j)) (bs ! (2 * j + 1)))"
proof (induction bs arbitrary: j rule: readSamples.induct)
  case (1 lo hi bs)
  then show ?case by (cases j) auto
qed simp_all

lemma readFrames_nth:
  "0 < c \<Longrightarrow> i < length raw div (2 * c) \<Longrightarrow>
     readFrames c raw ! i = readSamples (take (2 * c) (drop (2 * c * i) raw))"
proof (induction c raw arbitrary: i rule: readFrames.induct)
  case (1 c raw)
  from "1.prems" have ge: "\<not> length raw < 2 * c"
    by (cases "length raw < 2 * c") auto
  have unf: "readFrames c raw = readSamples (take (2 * c) raw) # readFrames c (drop (2 * c) raw)"
    using ge "1.prems"(1) by (subst readFrames.simps) simp
  show ?case
  proof (cases i)
    case 0
    then show ?thesis by (simp add: unf)
  next
    case (Suc k)
    have "length raw div (2 * c) = Suc ((length raw - 2 * c) div (2 * c))"
      using ge "1.prems"(1) by (simp add: le_div_geq)
    with Suc "1.prems"(2) have k: "k < length (drop (2 * c) raw) div (2 * c)" by simp
    have "readFrames c (drop (2 * c) raw) ! k
            = readSamples (take (2 * c) (drop (2 * c * k) (drop (2 * c) raw)))"
      using "1.IH" [of k] ge "1.prems"(1) k by simp
    then show ?thesis by (simp add: unf Suc add.commute)
  qed
qed

lemma sample_at:
  assumes c: "0 < c" and i: "i < length raw div (2 * c)" and ch: "ch < c"
  shows "readFrames c raw ! i ! ch
           = real_of_int (sint (int16le (raw ! (2 * (i * c + ch)))
                                        (raw ! (2 * (i * c + ch) + 1)))) / 32768"
proof -
  have bound: "2 * c * i + 2 * c \<le> length raw"
  proof -
    have "Suc i \<le> length raw div (2 * c)" using i by simp
    then have "2 * c * Suc i \<le> 2 * c * (length raw div (2 * c))" by (rule mult_le_mono2)
    also have "\<dots> \<le> length raw" by simp
    finally show ?thesis by simp
  qed
  let ?fr = "take (2 * c) (drop (2 * c * i) raw)"
  have len: "length ?fr = 2 * c" using bound by simp
  have "readFrames c raw ! i ! ch = readSamples ?fr ! ch"
    by (simp only: readFrames_nth [OF c i])
  also have "\<dots> = scaleSample (int16le (?fr ! (2 * ch)) (?fr ! (2 * ch + 1)))"
    using ch len by (intro readSamples_nth) simp
  also have "?fr ! (2 * ch) = raw ! (2 * (i * c + ch))"
    using ch bound by (simp add: algebra_simps)
  also have "?fr ! (2 * ch + 1) = raw ! (2 * (i * c + ch) + 1)"
    using ch bound by (simp add: algebra_simps)
  finally show ?thesis by (simp only: scaleSample_def)
qed

text \<open>
  Claim C1. For every raw PCM byte sequence of length \<open>N\<close> and every channel count
  \<open>c > 0\<close>, \<open>pcmToAudioBuffer\<close> produces exactly \<open>N div (2 * c)\<close> frames. The function
  is total (it has no error result), and the trailing incomplete frame is discarded:
  the decoded buffer is the one decoded from the longest frame-aligned prefix. In
  particular a frame-aligned payload and the same payload with one more byte decode
  to the same number of frames.
\<close>

theorem pcmToAudioBuffer_frame_count:
  "0 < c \<Longrightarrow>
     length (frames (pcmToAudioBuffer raw rate c)) = length raw div (2 * c)
     \<and> pcmToAudioBuffer (take (2 * c * (length raw div (2 * c))) raw) rate c
         = pcmToAudioBuffer raw rate c
     \<and> (length raw mod (2 * c) = 0 \<longrightarrow>
          length (frames (pcmToAudioBuffer (raw @ [b]) rate c))
            = length (frames (pcmToAudioBuffer raw rate c)))"
proof -
  assume c: "0 < c"
  have n: "length (frames (pcmToAudioBuffer raw rate c)) = length raw div (2 * c)"
    using c by (simp add: pcmToAudioBuffer_def length_readFrames)
  have t: "pcmToAudioBuffer (take (2 * c * (length raw div (2 * c))) raw) rate c
             = pcmToAudioBuffer raw rate c"
    using c by (simp add: pcmToAudioBuffer_def readFrames_take)
  have a: "length (frames (pcmToAudioBuffer (raw @ [b]) rate c))
             = length (frames (pcmToAudioBuffer raw rate c))"
    if "length raw mod (2 * c) = 0"
    using c aligned_plus_one [OF c that]
    by (simp add: pcmToAudioBuffer_def length_readFrames)
  from n t a show ?thesis by blast
qed

theorem pcmToAudioBuffer_frame_count_witness:
  "(0::nat) < 1
   \<and> length [0x00, 0x80, 0xFF, 0x7F :: byte] mod (2 * 1) = 0
   \<and> length (frames (pcmToAudioBuffer [0x00, 0x80, 0xFF, 0x7F] 24000 1)) = 2
   \<and> length (frames (pcmToAudioBuffer ([0x00, 0x80, 0xFF, 0x7F] @ [0x01]) 24000 1)) = 2"
  using pcmToAudioBuffer_frame_count [of 1 "[0x00, 0x80, 0xFF, 0x7F]" 24000 "0x01"]
  by simp

text \<open>
  Claim C2. Every sample produced by \<open>pcmToAudioBuffer\<close> lies in the closed interval
  from -1 to 1. The sample of channel \<open>ch\<close> in frame \<open>i\<close> is the signed value of the
  little-endian 16-bit integer at sample index \<open>i * c + ch\<close>, divided by 32768. The
  input value 0x8000 (bytes 0x00, 0x80) maps to exactly -1, and 0x7FFF (bytes 0xFF,
  0x7F) maps to 32767 / 32768, which is within 0.000001 of 0.999969.
\<close>

theorem pcmToAudioBuffer_amplitude:
  "(\<forall>fr \<in> set (frames (pcmToAudioBuffer raw rate c)). \<forall>x \<in> set fr. - 1 \<le> x \<and> x \<le> 1)
   \<and> (0 < c \<and> i < length raw div (2 * c) \<and> ch < c \<longrightarrow>
        frames (pcmToAudioBuffer raw rate c) ! i ! ch
          = real_of_int (sint (int16le (raw ! (2 * (i * c + ch)))
                                       (raw ! (2 * (i * c + ch) + 1)))) / 32768)
   \<and> int16le 0x00 0x80 = 0x8000 \<and> scaleSample 0x8000 = - 1
   \<and> int16le 0xFF 0x7F = 0x7FFF \<and> scaleSample 0x7FFF = 32767 / 32768
   \<and> \<bar>scaleSample 0x7FFF - 0.999969\<bar> < 0.000001"
proof -
  have b: "\<forall>fr \<in> set (frames (pcmToAudioBuffer raw rate c)). \<forall>x \<in> set fr. - 1 \<le> x \<and> x \<le> 1"
    using readFrames_bounds by (auto simp: pcmToAudioBuffer_def)
  have s: "frames (pcmToAudioBuffer raw rate c) ! i ! ch
             = real_of_int (sint (int16le (raw ! (2 * (i * c + ch)))
                                          (raw ! (2 * (i * c + ch) + 1)))) / 32768"
    if "0 < c \<and> i < length raw div (2 * c) \<and> ch < c"
    using that sample_at [of c i raw ch] by (simp add: pcmToAudioBuffer_def)
  have e1: "int16le 0x00 0x80 = 0x8000" by (simp add: int16le_def)
  have e2: "scaleSample 0x8000 = - 1" by (simp add: scaleSample_def)
  have e3: "int16le 0xFF 0x7F = 0x7FFF" by (simp add: int16le_def)
  have e4: "scaleSample 0x7FFF = 32767 / 32768" by (simp add: scaleSample_def)
  have e5: "\<bar>scaleSample 0x7FFF - 0.999969\<bar> < 0.000001" by (simp add: scaleSample_def)
  from b s e1 e2 e3 e4 e5 show ?thesis by blast
qed

theorem pcmToAudioBuffer_amplitude_witness:
  "frames (pcmToAudioBuffer [0x00, 0x80, 0xFF, 0x7F] 24000 1) = [[- 1], [32767 / 32768]]
   \<and> [- 1] \<in> set (frames (pcmToAudioBuffer [0x00, 0x80, 0xFF, 0x7F] 24000 1))
   \<and> (- 1 :: real) \<in> set [- 1] \<and> - 1 \<le> (- 1 :: real) \<and> (- 1 :: real) \<le> 1
   \<and> (0::nat) < 1 \<and> (1::nat) < length [0x00, 0x80, 0xFF, 0x7F :: byte] div (2 * 1)
   \<and> frames (pcmToAudioBuffer [0x00, 0x80, 0xFF, 0x7F] 24000 1) ! 1 ! 0 = 32767 / 32768"
proof -
  have v: "frames (pcmToAudioBuffer [0x00, 0x80, 0xFF, 0x7F] 24000 1)
             = [[- 1], [32767 / 32768]]"
    by (simp add: pcmToAudioBuffer_def readFrames.simps int16le_def scaleSample_def)
  from v pcmToAudioBuffer_amplitude [of "[0x00, 0x80, 0xFF, 0x7F]" 24000 1 1 0]
  show ?thesis by simp
qed

section \<open>Properties of the service and of the favorites store\<close>

text \<open>
  Claim C9. For every summarization response the operation returns a result and not
  an error; the summary is the text of the response; the citation list is empty
  whenever the citations are absent (no candidates, an empty candidate list, no
  grounding metadata, or no grounding chunks), and it is the supplied list otherwise.\<close>

theorem summarize_no_citations:
  "\<not> isl (summarizeNewsWithGoogleSearch (Inr response))
   \<and> summary (projr (summarizeNewsWithGoogleSearch (Inr response))) = resp_text response
   \<and> (resp_candidates response = None \<longrightarrow>
        groundingChunks (projr (summarizeNewsWithGoogleSearch (Inr response))) = [])
   \<and> (resp_candidates response = Some [] \<longrightarrow>
        groundingChunks (projr (summarizeNewsWithGoogleSearch (Inr response))) = [])
   \<and> (resp_candidates response = Some (c # cs) \<and> cand_groundingMetadata c = None \<longrightarrow>
        groundingChunks (projr (summarizeNewsWithGoogleSearch (Inr response))) = [])
   \<and> (resp_candidates response = Some (c # cs) \<and> cand_groundingMetadata c = Some m
        \<and> gm_groundingChunks m = None \<longrightarrow>
        groundingChunks (projr (summarizeNewsWithGoogleSearch (Inr response))) = [])
   \<and> (resp_candidates response = Some (c # cs) \<and> cand_groundingMetadata c = Some m
        \<and> gm_groundingChunks m = Some chunks \<longrightarrow>
        groundingChunks (projr (summarizeNewsWithGoogleSearch (Inr response))) = chunks)"
  by (simp add: summarizeNewsWithGoogleSearch_def first0_def)


theorem summarize_no_citations_witness:
  "resp_candidates noCitations = None
   \<and> summarizeNewsWithGoogleSearch (Inr noCitations)
       = Inr \<lparr>summary = Some ''ozet'', groundingChunks = []\<rparr>
   \<and> resp_candidates (speechResponse ''AAD/fw=='')
       = Some [\<lparr>cand_content = Some \<lparr>content_parts =
           Some [\<lparr>part_inlineData = Some \<lparr>blob_data = Some ''AAD/fw==''\<rparr>\<rparr>]\<rparr>,
           cand_groundingMetadata = None\<rparr>]
   \<and> groundingChunks (projr (summarizeNewsWithGoogleSearch (Inr (speechResponse ''AAD/fw=='')))) = []"
proof -
  have a: "resp_candidates noCitations = None" "resp_text noCitations = Some ''ozet''"
    by (simp_all add: noCitations_def)
  have b: "resp_candidates (speechResponse ''AAD/fw=='')
       = Some [\<lparr>cand_content = Some \<lparr>content_parts =
           Some [\<lparr>part_inlineData = Some \<lparr>blob_data = Some ''AAD/fw==''\<rparr>\<rparr>]\<rparr>,
           cand_groundingMetadata = None\<rparr>]"
    by (simp add: speechResponse_def)
  have e: "r = Inr \<lparr>summary = x, groundingChunks = []\<rparr>"
    if "\<not> isl r" "summary (projr r) = x" "groundingChunks (projr r) = []"
    for r :: "string + SummaryResult" and x
    using that by (cases r) simp_all
  from summarize_no_citations [of noCitations] a
  have 1: "summarizeNewsWithGoogleSearch (Inr noCitations)
       = Inr \<lparr>summary = Some ''ozet'', groundingChunks = []\<rparr>"
    by (intro e) simp_all
  from summarize_no_citations [of "speechResponse ''AAD/fw==''"
         "\<lparr>cand_content = Some \<lparr>content_parts =
           Some [\<lparr>part_inlineData = Some \<lparr>blob_data = Some ''AAD/fw==''\<rparr>\<rparr>]\<rparr>,
           cand_groundingMetadata = None\<rparr>" "[]"] b
  have 2: "groundingChunks (projr (summarizeNewsWithGoogleSearch (Inr (speechResponse ''AAD/fw=='')))) = []"
    by simp
  from a(1) 1 b 2 show ?thesis by simp
qed

lemma distinct_texts_filter:
  "distinct (map fav_text xs) \<Longrightarrow> distinct (map fav_text (filter P xs))"
  by (rule distinct_map_filter)

lemma distinct_texts_sort:
  "distinct (map fav_text xs) \<Longrightarrow> distinct (map fav_text (sort_key k xs))"
  by (simp add: distinct_map)

lemma applyFavOp_distinct:
  "distinct (map fav_text st) \<Longrightarrow> distinct (map fav_text (applyFavOp x st))"
proof (cases x)
  case (AddFavorite i0 tx s0 t0)
  assume d: "distinct (map fav_text st)"
  show ?thesis
  proof (cases "list_ex (\<lambda>item. fav_text item = tx) st")
    case True
    with d AddFavorite show ?thesis
      by (simp add: handleAddFavorite_def distinct_texts_filter)
  next
    case False
    then have "tx \<notin> fav_text ` set st" by (auto simp: list_ex_iff)
    with d False AddFavorite show ?thesis by (simp add: handleAddFavorite_def)
  qed
next
  case (RemoveFavorite i)
  assume "distinct (map fav_text st)"
  with RemoveFavorite show ?thesis
    by (simp add: handleRemoveFavorite_def distinct_texts_filter)
next
  case Render
  assume "distinct (map fav_text st)"
  with Render show ?thesis by (simp add: sortedFavorites_def distinct_texts_sort)
qed

lemma runFavOps_distinct:
  "distinct (map fav_text st) \<Longrightarrow> distinct (map fav_text (runFavOps ops st))"
  by (induction ops arbitrary: st) (simp_all add: applyFavOp_distinct)

text \<open>
  Claim C8. For every store and every text \<open>T\<close>: adding \<open>T\<close> inserts a new entry in
  front when no entry has text \<open>T\<close>, and removes every entry with text \<open>T\<close> when one
  exists. Any sequence of add, remove and render operations keeps the texts of the
  store pairwise distinct when they are distinct at the start, in particular from
  the empty store the component starts with.\<close>

theorem favorites_toggle:
  "(\<not> list_ex (\<lambda>item. fav_text item = T) st \<longrightarrow>
       handleAddFavorite now T src ts st
         = \<lparr>fav_id = now, fav_text = T, fav_source = src, fav_timestamp = ts\<rparr> # st)
   \<and> (list_ex (\<lambda>item. fav_text item = T) st \<longrightarrow>
       handleAddFavorite now T src ts st = filter (\<lambda>item. fav_text item \<noteq> T) st
       \<and> \<not> list_ex (\<lambda>item. fav_text item = T) (handleAddFavorite now T src ts st))
   \<and> (distinct (map fav_text st) \<longrightarrow> distinct (map fav_text (runFavOps ops st)))
   \<and> distinct (map fav_text (runFavOps ops []))"
proof -
  have a: "handleAddFavorite now T src ts st
         = \<lparr>fav_id = now, fav_text = T, fav_source = src, fav_timestamp = ts\<rparr> # st"
    if "\<not> list_ex (\<lambda>item. fav_text item = T) st"
    using that by (simp add: handleAddFavorite_def)
  have b: "handleAddFavorite now T src ts st = filter (\<lambda>item. fav_text item \<noteq> T) st
       \<and> \<not> list_ex (\<lambda>item. fav_text item = T) (handleAddFavorite now T src ts st)"
    if "list_ex (\<lambda>item. fav_text item = T) st"
    using that by (simp add: handleAddFavorite_def list_ex_iff)
  have c: "distinct (map fav_text (runFavOps ops st))" if "distinct (map fav_text st)"
    using that by (rule runFavOps_distinct)
  have d: "distinct (map fav_text (runFavOps ops []))"
    by (rule runFavOps_distinct) simp
  from a b c d show ?thesis by blast
qed

theorem favorites_toggle_witness:
  "\<not> list_ex (\<lambda>item. fav_text item = ''a'') []
   \<and> handleAddFavorite ''t1'' ''a'' ''s'' 5 []
        = [\<lparr>fav_id = ''t1'', fav_text = ''a'', fav_source = ''s'', fav_timestamp = 5\<rparr>]
   \<and> list_ex (\<lambda>item. fav_text item = ''a'')
        [\<lparr>fav_id = ''t1'', fav_text = ''a'', fav_source = ''s'', fav_timestamp = 5\<rparr>]
   \<and> handleAddFavorite ''t2'' ''a'' ''s'' 6
        [\<lparr>fav_id = ''t1'', fav_text = ''a'', fav_source = ''s'', fav_timestamp = 5\<rparr>] = []
   \<and> distinct (map fav_text [\<lparr>fav_id = ''t1'', fav_text = ''a'', fav_source = ''s'', fav_timestamp = 5\<rparr>])
   \<and> distinct (map fav_text (runFavOps [AddFavorite ''t3'' ''b'' ''s'' 9, Render]
        [\<lparr>fav_id = ''t1'', fav_text = ''a'', fav_source = ''s'', fav_timestamp = 5\<rparr>]))"
  using favorites_toggle [of "''a''" "[]" "''t1''" "''s''" 5 "[]"]
        favorites_toggle [of "''a''"
          "[\<lparr>fav_id = ''t1'', fav_text = ''a'', fav_source = ''s'', fav_timestamp = 5\<rparr>]"
          "''t2''" "''s''" 6 "[AddFavorite ''t3'' ''b'' ''s'' 9, Render]"]
  by simp

section \<open>Properties of the playback controller\<close>

lemmas handler_defs =
  click_def handleAudioAction_def startRequest_def stopSource_def halt_def catchBlock_def
  finallyBlock_def playDecoded_def afterSpeech_def afterResume_def onended_def
  decodesAll_def decodesNone_def

lemma consistent_initial: "consistent initial"
  by (simp add: consistent_def initial_def)

lemma consistent_halt: "consistent s \<Longrightarrow> consistent (halt n s)"
  by (auto simp: consistent_def halt_def split: option.splits)

lemma consistent_click: "consistent s \<Longrightarrow> consistent (click summaryText s)"
  by (auto simp: consistent_def click_def handleAudioAction_def startRequest_def
                 stopSource_def halt_def split: option.splits)

lemma generating_no_source:
  "consistent s \<Longrightarrow> isGeneratingAudio s \<Longrightarrow>
     sourceNodeRef s = None \<and> \<not> isPlaying s \<and> started s = {} \<and> ending s = {}"
  by (auto simp: consistent_def split: option.splits)

lemma consistent_fail:
  "consistent s \<Longrightarrow> isGeneratingAudio s \<Longrightarrow> consistent (finallyBlock (catchBlock s))"
  using generating_no_source [of s]
  by (simp add: consistent_def catchBlock_def finallyBlock_def)

lemma consistent_playDecoded:
  "consistent s \<Longrightarrow> isGeneratingAudio s \<Longrightarrow> consistent (playDecoded dec b s)"
  using generating_no_source [of s]
  by (cases "dec b") (simp_all add: consistent_def playDecoded_def catchBlock_def finallyBlock_def)

lemma consistent_ctx:
  "consistent s \<Longrightarrow> consistent (s\<lparr>audioContextRef := True\<rparr>)"
  by (auto simp: consistent_def split: option.splits)

lemma consistent_afterSpeech:
  "consistent s \<Longrightarrow> isGeneratingAudio s \<Longrightarrow> consistent (afterSpeech dec r ctorOk suspended s)"
proof (cases r)
  case (Inl e)
  assume "consistent s" "isGeneratingAudio s"
  with Inl show ?thesis by (simp add: afterSpeech_def consistent_fail)
next
  case (Inr b)
  assume c: "consistent s" and g: "isGeneratingAudio s"
  have p: "consistent (playDecoded dec b (s\<lparr>audioContextRef := True\<rparr>))"
    using c g by (intro consistent_playDecoded consistent_ctx) simp_all
  have w: "consistent (s\<lparr>audioContextRef := True, pending := AwaitResume b\<rparr>)"
    using c g generating_no_source [of s] by (simp add: consistent_def)
  from Inr c g p w show ?thesis by (simp add: afterSpeech_def consistent_fail)
qed

lemma consistent_afterResume:
  "consistent s \<Longrightarrow> isGeneratingAudio s \<Longrightarrow> consistent (afterResume dec ok b s)"
  by (simp add: afterResume_def consistent_fail consistent_playDecoded)

lemma consistent_ended:
  "consistent s \<Longrightarrow> n \<in> ending s \<Longrightarrow> consistent (onended (s\<lparr>ending := ending s - {n}\<rparr>))"
  by (auto simp: consistent_def onended_def split: option.splits)

lemma consistent_step: "consistent s \<Longrightarrow> consistent (step dec summaryText e s)"
proof (cases e)
  case Click
  assume "consistent s"
  with Click show ?thesis by (simp add: consistent_click)
next
  case (SpeechSettled api ctorOk suspended)
  assume c: "consistent s"
  then have "pending s = AwaitSpeech \<Longrightarrow> isGeneratingAudio s" by (simp add: consistent_def)
  with c SpeechSettled show ?thesis by (simp add: consistent_afterSpeech)
next
  case (ResumeSettled ok)
  assume c: "consistent s"
  then have "\<And>b. pending s = AwaitResume b \<Longrightarrow> isGeneratingAudio s" by (simp add: consistent_def)
  with c ResumeSettled show ?thesis by (simp add: consistent_afterResume split: task.splits)
next
  case (Finished n)
  assume "consistent s"
  with Finished show ?thesis by (simp add: consistent_halt)
next
  case (Ended n)
  assume "consistent s"
  with Ended show ?thesis by (simp add: consistent_ended)
qed

lemma consistent_run: "consistent s \<Longrightarrow> consistent (run dec summaryText es s)"
  by (induction es arbitrary: s) (simp_all add: consistent_step)

lemma consistent_devices:
  "consistent s \<Longrightarrow> card (devices s) \<le> 1 \<and> (\<not> isPlaying s \<longrightarrow> devices s = {} \<and> sourceNodeRef s = None)"
  by (cases "sourceNodeRef s") (auto simp: consistent_def devices_def)

lemma generateSpeech_speechResponse:
  "b \<noteq> [] \<Longrightarrow> generateSpeech (Inr (speechResponse b)) = Inr b"
  by (simp add: generateSpeech_def speechResponse_def first0_def)

lemma playing_source:
  "consistent s \<Longrightarrow> phase s = Playing \<Longrightarrow>
     \<exists>n. sourceNodeRef s = Some n \<and> \<not> isGeneratingAudio s \<and> isPlaying s \<and> pending s = NoTask
        \<and> (started s = {n} \<and> ending s = {} \<or> started s = {} \<and> ending s = {n})"
  by (cases "sourceNodeRef s") (auto simp: consistent_def phase_def split: if_splits)

lemma idle_no_source:
  "consistent s \<Longrightarrow> phase s = Idle \<Longrightarrow>
     sourceNodeRef s = None \<and> \<not> isGeneratingAudio s \<and> \<not> isPlaying s \<and> pending s = NoTask
        \<and> started s = {} \<and> ending s = {}"
  by (cases "sourceNodeRef s") (auto simp: consistent_def phase_def split: if_splits)

lemma generating_state:
  "consistent s \<Longrightarrow> phase s = Generating \<Longrightarrow>
     sourceNodeRef s = None \<and> isGeneratingAudio s \<and> \<not> isPlaying s \<and> pending s \<noteq> NoTask
        \<and> started s = {} \<and> ending s = {}"
  by (cases "sourceNodeRef s") (auto simp: consistent_def phase_def split: if_splits)

lemma playingExample_eq:
  "playingExample = \<lparr>isGeneratingAudio = False, isPlaying = True, audioError = None,
              audioContextRef = True, sourceNodeRef = Some 0, pending = NoTask,
              nextNode = Suc 0, started = {0}, ending = {}\<rparr>"
  by (simp add: playingExample_def initial_def handler_defs generateSpeech_speechResponse)


lemma consistent_playingExample: "consistent playingExample"
  unfolding playingExample_def by (rule consistent_run [OF consistent_initial])

lemma generatingExample_eq:
  "generatingExample = \<lparr>isGeneratingAudio = True, isPlaying = False, audioError = None,
              audioContextRef = False, sourceNodeRef = None, pending = AwaitSpeech,
              nextNode = 0, started = {}, ending = {}\<rparr>"
  by (simp add: generatingExample_def initial_def handler_defs)

lemma consistent_generatingExample: "consistent generatingExample"
  unfolding generatingExample_def by (rule consistent_run [OF consistent_initial])










text \<open>
  Claim C6, as stated, fails. After a click the session is Generating; a further
  click does nothing (the button is disabled), and the stop path does nothing either
  (there is no source node); when the response then arrives, a device is allocated
  and the phase is Playing.\<close>

theorem stop_while_generating_counterexample:
  "phase generatingExample = Generating
   \<and> step decodesAll ''x'' Click generatingExample = generatingExample
   \<and> stopSource generatingExample = generatingExample
   \<and> phase (step decodesAll ''x''
        (SpeechSettled (Inr (speechResponse ''AAD/fw=='')) True False)
        (step decodesAll ''x'' Click generatingExample)) = Playing
   \<and> devices (step decodesAll ''x''
        (SpeechSettled (Inr (speechResponse ''AAD/fw=='')) True False)
        (step decodesAll ''x'' Click generatingExample)) = {0}"
  by (simp add: generatingExample_eq handler_defs phase_def devices_def
                generateSpeech_speechResponse)

text \<open>
  Claim C6, amended. While the session is Generating a click and the stop path leave
  it unchanged, so a stop request has no effect and is not recorded; when the
  response then arrives and decodes (directly, or after \<^verbatim>\<open>resume()\<close>), one output
  device is allocated and the phase is Playing.\<close>

theorem stop_while_generating:
  "consistent s \<Longrightarrow> phase s = Generating \<Longrightarrow>
     step dec tx Click s = s \<and> stopSource s = s
     \<and> (pending s = AwaitSpeech \<and> generateSpeech api = Inr b \<and> (audioContextRef s \<or> ctorOk)
          \<and> dec b = Some buf \<longrightarrow>
        phase (step dec tx (SpeechSettled api ctorOk False) (step dec tx Click s)) = Playing
        \<and> devices (step dec tx (SpeechSettled api ctorOk False) (step dec tx Click s)) = {nextNode s}
        \<and> sourceNodeRef (step dec tx (SpeechSettled api ctorOk False) (step dec tx Click s))
            = Some (nextNode s))
     \<and> (pending s = AwaitResume b \<and> dec b = Some buf \<longrightarrow>
        phase (step dec tx (ResumeSettled True) (step dec tx Click s)) = Playing
        \<and> devices (step dec tx (ResumeSettled True) (step dec tx Click s)) = {nextNode s}
        \<and> sourceNodeRef (step dec tx (ResumeSettled True) (step dec tx Click s))
            = Some (nextNode s))"
proof -
  assume c: "consistent s" and g: "phase s = Generating"
  note st = generating_state [OF c g]
  have k': "click tx s = s" using st by (simp add: click_def)
  then have k: "step dec tx Click s = s" by simp
  have t: "stopSource s = s" using st by (simp add: stopSource_def)
  have 1: "phase (step dec tx (SpeechSettled api ctorOk False) (step dec tx Click s)) = Playing
        \<and> devices (step dec tx (SpeechSettled api ctorOk False) (step dec tx Click s)) = {nextNode s}
        \<and> sourceNodeRef (step dec tx (SpeechSettled api ctorOk False) (step dec tx Click s))
            = Some (nextNode s)"
    if "pending s = AwaitSpeech \<and> generateSpeech api = Inr b \<and> (audioContextRef s \<or> ctorOk)
          \<and> dec b = Some buf"
    using that st
    by (auto simp: k' afterSpeech_def playDecoded_def finallyBlock_def phase_def devices_def)
  have 2: "phase (step dec tx (ResumeSettled True) (step dec tx Click s)) = Playing
        \<and> devices (step dec tx (ResumeSettled True) (step dec tx Click s)) = {nextNode s}
        \<and> sourceNodeRef (step dec tx (ResumeSettled True) (step dec tx Click s))
            = Some (nextNode s)"
    if "pending s = AwaitResume b \<and> dec b = Some buf"
    using that st
    by (auto simp: k' afterResume_def playDecoded_def finallyBlock_def phase_def devices_def)
  from k t 1 2 show ?thesis by blast
qed

theorem stop_while_generating_witness:
  "consistent generatingExample \<and> phase generatingExample = Generating
   \<and> pending generatingExample = AwaitSpeech
   \<and> generateSpeech (Inr (speechResponse ''AAD/fw=='')) = Inr ''AAD/fw==''
   \<and> step decodesAll ''x'' Click generatingExample = generatingExample
   \<and> sourceNodeRef (step decodesAll ''x''
        (SpeechSettled (Inr (speechResponse ''AAD/fw=='')) True False)
        (step decodesAll ''x'' Click generatingExample)) = Some 0"
proof -
  have a: "phase generatingExample = Generating" "pending generatingExample = AwaitSpeech"
    "nextNode generatingExample = 0"
    by (simp_all add: generatingExample_eq phase_def)
  have b: "generateSpeech (Inr (speechResponse ''AAD/fw=='')) = Inr ''AAD/fw==''"
    by (simp add: generateSpeech_speechResponse)
  have h: "pending generatingExample = AwaitSpeech
      \<and> generateSpeech (Inr (speechResponse ''AAD/fw=='')) = Inr ''AAD/fw==''
      \<and> (audioContextRef generatingExample \<or> True)
      \<and> decodesAll ''AAD/fw=='' = Some ()"
    using a b by (simp add: decodesAll_def)
  note t = stop_while_generating [OF consistent_generatingExample a(1),
         of decodesAll "''x''" "Inr (speechResponse ''AAD/fw=='')" "''AAD/fw==''" True "()"]
  from t have k: "step decodesAll ''x'' Click generatingExample = generatingExample"
    by blast
  from t h have "sourceNodeRef (step decodesAll ''x''
        (SpeechSettled (Inr (speechResponse ''AAD/fw=='')) True False)
        (step decodesAll ''x'' Click generatingExample)) = Some (nextNode generatingExample)"
    by blast
  then have n: "sourceNodeRef (step decodesAll ''x''
        (SpeechSettled (Inr (speechResponse ''AAD/fw=='')) True False)
        (step decodesAll ''x'' Click generatingExample)) = Some 0"
    by (simp only: a(3))
  from consistent_generatingExample a(1) a(2) b k n show ?thesis by blast
qed

text \<open>
  Claim C7, as stated, fails. In a Playing session the audio action issues no
  request and does not enter Generating: the phase stays Playing until the \<^verbatim>\<open>ended\<close>
  event is dispatched and is Idle afterwards, whereas a start from that Idle session
  is Generating. The start path alone, run on the Playing session, does not stop the
  device either.\<close>

theorem start_while_playing_counterexample:
  "phase playingExample = Playing
   \<and> phase (step decodesAll ''x'' Click playingExample) = Playing
   \<and> pending (step decodesAll ''x'' Click playingExample) = NoTask
   \<and> phase (step decodesAll ''x'' (Ended 0)
        (step decodesAll ''x'' Click playingExample)) = Idle
   \<and> pending (step decodesAll ''x'' (Ended 0)
        (step decodesAll ''x'' Click playingExample)) = NoTask
   \<and> phase (step decodesAll ''x'' Click (step decodesAll ''x'' (Ended 0)
        (step decodesAll ''x'' Click playingExample))) = Generating
   \<and> started (startRequest ''x'' playingExample) = {0}"
  by (simp add: playingExample_eq handler_defs phase_def)

text \<open>
  Claim C7, amended. In phase Playing the audio action is the stop path and nothing
  more: the device is halted, no request is issued, the error is untouched and
  Generating is not entered; when the \<^verbatim>\<open>ended\<close> event of the current node is
  dispatched the phase is Idle with no request in flight and no device.\<close>

theorem start_while_playing:
  "consistent s \<Longrightarrow> phase s = Playing \<Longrightarrow>
     step dec tx Click s = stopSource s
     \<and> phase (step dec tx Click s) = Playing
     \<and> pending (step dec tx Click s) = NoTask
     \<and> audioError (step dec tx Click s) = audioError s
     \<and> started (step dec tx Click s) = {}
     \<and> (\<exists>n. sourceNodeRef s = Some n
          \<and> phase (step dec tx (Ended n) (step dec tx Click s)) = Idle
          \<and> pending (step dec tx (Ended n) (step dec tx Click s)) = NoTask
          \<and> devices (step dec tx (Ended n) (step dec tx Click s)) = {})"
proof -
  assume c: "consistent s" and g: "phase s = Playing"
  from playing_source [OF c g] obtain n where n: "sourceNodeRef s = Some n"
    and f: "\<not> isGeneratingAudio s" "isPlaying s" "pending s = NoTask"
    and d: "started s = {n} \<and> ending s = {} \<or> started s = {} \<and> ending s = {n}"
    by blast
  from d show ?thesis
  proof
    assume "started s = {n} \<and> ending s = {}"
    with n f show ?thesis
      by (simp add: click_def handleAudioAction_def stopSource_def halt_def onended_def
                    phase_def devices_def)
  next
    assume "started s = {} \<and> ending s = {n}"
    with n f show ?thesis
      by (simp add: click_def handleAudioAction_def stopSource_def halt_def onended_def
                    phase_def devices_def)
  qed
qed

theorem start_while_playing_witness:
  "consistent playingExample \<and> phase playingExample = Playing
   \<and> step decodesAll ''x'' Click playingExample = stopSource playingExample
   \<and> pending (step decodesAll ''x'' Click playingExample) = NoTask"
proof -
  have a: "phase playingExample = Playing" by (simp add: playingExample_eq phase_def)
  from start_while_playing [OF consistent_playingExample a, of decodesAll "''x''"]
       a consistent_playingExample
  show ?thesis by blast
qed

text \<open>
  Claim C10. In phase Idle the audio action with an empty summary returns the
  session unchanged: no request is issued, the phase, the error and the devices
  are as before. The same holds for the click on the button.\<close>

theorem empty_summary_returns:
  "phase s = Idle \<Longrightarrow> handleAudioAction [] s = s \<and> step dec [] Click s = s"
  by (auto simp: phase_def click_def handleAudioAction_def startRequest_def split: if_splits)

theorem empty_summary_returns_witness:
  "phase initial = Idle \<and> handleAudioAction [] initial = initial
   \<and> step decodesAll [] Click initial = initial"
proof -
  have a: "phase initial = Idle" by (simp add: initial_def phase_def)
  from empty_summary_returns [OF a, of decodesAll] a show ?thesis by simp
qed

end
